theory Spec2Isabelle
  imports
    Main
    "HOL-Library.Word"
    "HOL-Library.Char_ord"
    "HOL-Library.List_Lexorder"
    "HOL-Library.AList"
begin

unbundle bit_operations_syntax

section \<open>Byte strings and the string helpers the package calls\<close>

text \<open>
  Go strings and byte slices are byte sequences; both are modelled as \<open>string\<close>
  (a list of 8-bit characters).

  \<open>strings.ToUpper\<close> and \<open>strings.ToLower\<close> have two paths. A string of ASCII bytes
  only has its letters mapped byte by byte. Any other string goes through
  \<open>strings.Map(unicode.ToUpper, s)\<close> or \<open>strings.Map(unicode.ToLower, s)\<close>, which decodes
  UTF-8, maps every character by Unicode's case tables (the long s to \<open>S\<close>, for one) and
  writes U+FFFD for an invalid byte. The case tables are no part of the repository:
  the two maps are a parameter, \<open>case_tables\<close>, of everything that changes case.
\<close>

record case_tables =
  unicode_upper :: "string \<Rightarrow> string"
  unicode_lower :: "string \<Rightarrow> string"

definition is_ascii :: "string \<Rightarrow> bool" where
  "is_ascii s = list_all (\<lambda>c. (of_char c :: nat) < 128) s"

definition upper_char :: "char \<Rightarrow> char" where
  "upper_char c =
     (let n = (of_char c :: nat) in if 97 \<le> n \<and> n \<le> 122 then char_of (n - 32) else c)"

definition lower_char :: "char \<Rightarrow> char" where
  "lower_char c =
     (let n = (of_char c :: nat) in if 65 \<le> n \<and> n \<le> 90 then char_of (n + 32) else c)"

definition ToUpper :: "case_tables \<Rightarrow> string \<Rightarrow> string" where
  "ToUpper U s = (if is_ascii s then map upper_char s else unicode_upper U s)"

definition ToLower :: "case_tables \<Rightarrow> string \<Rightarrow> string" where
  "ToLower U s = (if is_ascii s then map lower_char s else unicode_lower U s)"

definition HasPrefix :: "string \<Rightarrow> string \<Rightarrow> bool" where
  "HasPrefix s p = (length p \<le> length s \<and> take (length p) s = p)"

definition HasSuffix :: "string \<Rightarrow> string \<Rightarrow> bool" where
  "HasSuffix s suf = (length suf \<le> length s \<and> drop (length s - length suf) s = suf)"

definition TrimSuffix :: "string \<Rightarrow> string \<Rightarrow> string" where
  "TrimSuffix s suf = (if HasSuffix s suf then take (length s - length suf) s else s)"

fun Join :: "string list \<Rightarrow> string \<Rightarrow> string" where
  "Join [] sep = []"
| "Join [x] sep = x"
| "Join (x # y # ys) sep = x @ sep @ Join (y # ys) sep"

text \<open>\<open>fmt.Sprintf("%d", n)\<close>: the decimal rendering of an integer.\<close>

function Sprintf_nat :: "nat \<Rightarrow> string" where
  "Sprintf_nat n =
     (if n < 10 then [char_of (48 + n)] else Sprintf_nat (n div 10) @ [char_of (48 + n mod 10)])"
  by pat_completeness auto
termination
  by (relation "measure id") auto

definition Sprintf_d :: "int \<Rightarrow> string" where
  "Sprintf_d n = (if n < 0 then CHR ''-'' # Sprintf_nat (nat (- n)) else Sprintf_nat (nat n))"

text \<open>\<open>fmt.Sprintf("%v", xs)\<close> for a slice of strings: the elements separated by one
  space, between square brackets.\<close>

definition Sprintf_v :: "string list \<Rightarrow> string" where
  "Sprintf_v xs = ''['' @ Join xs '' '' @ '']''"

section \<open>SHA-256, HMAC and base64 as the standard library computes them\<close>

type_synonym state256 =
  "32 word \<times> 32 word \<times> 32 word \<times> 32 word \<times> 32 word \<times> 32 word \<times> 32 word \<times> 32 word"

text \<open>
  The round constants and the initial state are the first 32 bits of the fractional
  parts of the cube roots of the first 64 primes and of the square roots of the first 8.
  \<open>iroot k n\<close> is the integer \<open>k\<close>-th root of \<open>n\<close>, by Newton's iteration from above.
\<close>

fun iroot_from :: "nat \<Rightarrow> nat \<Rightarrow> nat \<Rightarrow> nat \<Rightarrow> nat" where
  "iroot_from 0 k n x = x"
| "iroot_from (Suc fuel) k n x =
     (let y = ((k - 1) * x + n div x ^ (k - 1)) div k
      in if y < x then iroot_from fuel k n y else x)"

definition iroot :: "nat \<Rightarrow> nat \<Rightarrow> nat" where
  "iroot k n = iroot_from 512 k n (n + 1)"

definition frac_root32 :: "nat \<Rightarrow> nat \<Rightarrow> 32 word" where
  "frac_root32 k p = of_nat (iroot k (p * 2 ^ (32 * k)))"

definition first_primes :: "nat list" where
  "first_primes =
     [2, 3, 5, 7, 11, 13, 17, 19, 23, 29, 31, 37, 41, 43, 47, 53, 59, 61, 67, 71, 73, 79, 83,
      89, 97, 101, 103, 107, 109, 113, 127, 131, 137, 139, 149, 151, 157, 163, 167, 173, 179,
      181, 191, 193, 197, 199, 211, 223, 227, 229, 233, 239, 241, 251, 257, 263, 269, 271, 277,
      281, 283, 293, 307, 311]"

definition K256 :: "32 word list" where
  "K256 = map (frac_root32 3) first_primes"

definition init256 :: state256 where
  "init256 =
     (frac_root32 2 2, frac_root32 2 3, frac_root32 2 5, frac_root32 2 7,
      frac_root32 2 11, frac_root32 2 13, frac_root32 2 17, frac_root32 2 19)"

definition be64 :: "nat \<Rightarrow> string" where
  "be64 n = map (\<lambda>i. char_of (n div 256 ^ i)) [7, 6, 5, 4, 3, 2, 1, 0]"

definition sha256_pad :: "string \<Rightarrow> string" where
  "sha256_pad m =
     m @ [CHR 0x80] @ replicate ((119 - length m mod 64) mod 64) (CHR 0x00) @ be64 (8 * length m)"

definition be32 :: "string \<Rightarrow> 32 word" where
  "be32 bs = foldl (\<lambda>w c. push_bit 8 w OR of_char c) 0 (take 4 bs)"

definition block_words :: "string \<Rightarrow> 32 word list" where
  "block_words b = map (\<lambda>i. be32 (drop (4 * i) b)) [0..<16]"

definition lsig0 :: "32 word \<Rightarrow> 32 word" where
  "lsig0 x = word_rotr 7 x XOR word_rotr 18 x XOR drop_bit 3 x"

definition lsig1 :: "32 word \<Rightarrow> 32 word" where
  "lsig1 x = word_rotr 17 x XOR word_rotr 19 x XOR drop_bit 10 x"

definition usig0 :: "32 word \<Rightarrow> 32 word" where
  "usig0 x = word_rotr 2 x XOR word_rotr 13 x XOR word_rotr 22 x"

definition usig1 :: "32 word \<Rightarrow> 32 word" where
  "usig1 x = word_rotr 6 x XOR word_rotr 11 x XOR word_rotr 25 x"

fun schedule :: "nat \<Rightarrow> 32 word list \<Rightarrow> 32 word list" where
  "schedule 0 w = w"
| "schedule (Suc n) w =
     (let i = length w
      in schedule n
           (w @ [lsig1 (w ! (i - 2)) + w ! (i - 7) + lsig0 (w ! (i - 15)) + w ! (i - 16)]))"

fun round256 :: "state256 \<Rightarrow> 32 word \<times> 32 word \<Rightarrow> state256" where
  "round256 (a, b, c, d, e, f, g, h) (k, w) =
     (let t1 = h + usig1 e + ((e AND f) XOR (NOT e AND g)) + k + w;
          t2 = usig0 a + ((a AND b) XOR (a AND c) XOR (b AND c))
      in (t1 + t2, a, b, c, d + t1, e, f, g))"

fun add256 :: "state256 \<Rightarrow> state256 \<Rightarrow> state256" where
  "add256 (a, b, c, d, e, f, g, h) (a', b', c', d', e', f', g', h') =
     (a + a', b + b', c + c', d + d', e + e', f + f', g + g', h + h')"

definition compress :: "state256 \<Rightarrow> string \<Rightarrow> state256" where
  "compress s b = add256 s (foldl round256 s (zip K256 (schedule 48 (block_words b))))"

definition blocks64 :: "string \<Rightarrow> string list" where
  "blocks64 p = map (\<lambda>i. take 64 (drop (64 * i) p)) [0..<length p div 64]"

definition word_bytes :: "32 word \<Rightarrow> string" where
  "word_bytes w = map (\<lambda>i. char_of (unat (drop_bit (8 * i) w))) [3, 2, 1, 0]"

fun digest256 :: "state256 \<Rightarrow> string" where
  "digest256 (a, b, c, d, e, f, g, h) = concat (map word_bytes [a, b, c, d, e, f, g, h])"

definition sha256 :: "string \<Rightarrow> string" where
  "sha256 m = digest256 (foldl compress init256 (blocks64 (sha256_pad m)))"

text \<open>
  \<open>hmac.New(sha256.New, key)\<close>: a key longer than the 64-byte block is hashed first,
  the key is then copied into a zeroed 64-byte block, and the inner and outer pads are
  that block xor-ed with 0x36 and 0x5c.
\<close>

definition xor_byte :: "nat \<Rightarrow> char \<Rightarrow> char" where
  "xor_byte k c = char_of (of_char c XOR k)"

definition hmac_key_block :: "string \<Rightarrow> string" where
  "hmac_key_block key =
     (let k = (if length key > 64 then sha256 key else key)
      in k @ replicate (64 - length k) (CHR 0x00))"

definition hmac_sha256 :: "string \<Rightarrow> string \<Rightarrow> string" where
  "hmac_sha256 key msg =
     (let kb = hmac_key_block key;
          ipad = map (xor_byte 0x36) kb;
          opad = map (xor_byte 0x5c) kb
      in sha256 (opad @ sha256 (ipad @ msg)))"

definition b64_char :: "nat \<Rightarrow> char" where
  "b64_char n =
     ''ABCDEFGHIJKLMNOPQRSTUVWXYZabcdefghijklmnopqrstuvwxyz0123456789+/'' ! (n mod 64)"

fun base64_encode :: "string \<Rightarrow> string" where
  "base64_encode [] = []"
| "base64_encode [a] =
     (let n = of_char a * 65536
      in [b64_char (n div 262144), b64_char (n div 4096), CHR ''='', CHR ''=''])"
| "base64_encode [a, b] =
     (let n = of_char a * 65536 + of_char b * 256
      in [b64_char (n div 262144), b64_char (n div 4096), b64_char (n div 64), CHR ''=''])"
| "base64_encode (a # b # c # rest) =
     (let n = of_char a * 65536 + of_char b * 256 + of_char c
      in [b64_char (n div 262144), b64_char (n div 4096), b64_char (n div 64), b64_char n]
         @ base64_encode rest)"

section \<open>accesskey.go: rules, the store and the signature primitives\<close>

record Permissions =
  Resources :: "string list"
  Actions :: "string list"
  Effect :: string

datatype error = Error string | ErrNoRows | DriverError string | UnmarshalError

text \<open>
  A \<open>permissions\<close> column holds JSON text. It is modelled by what
  \<open>json.Unmarshal\<close> into \<open>[]*Permissions\<close> makes of it: an error, or a list of
  pointers, where \<open>None\<close> is the nil pointer a JSON \<open>null\<close> element decodes to.
\<close>

datatype payload = Malformed | Parsed "Permissions option list"

record access_key_row =
  ak_ID :: string
  ak_SecretKey :: string
  ak_AccessKey :: string
  ak_UserID :: int
  ak_Status :: string
  ak_Permissions :: payload
  ak_LastUsedAt :: "int option"

record role_row =
  role_ID :: int
  role_Permissions :: payload

text \<open>
  The statements the package sends. The driver may fail any of them (a lost connection,
  a timeout): \<open>faults d s = Some msg\<close> says that statement \<open>s\<close> returns a driver error
  with that message; SQL string equality is taken as equality of the strings.
\<close>

datatype stmt = SelectStatus | UpdateLastUsed | SelectPermissions | SelectRolePermissions
  | SelectSecret

record db =
  access_keys :: "access_key_row list"
  roles :: "role_row list"
  access_key_roles :: "(string \<times> int) list"
  faults :: "stmt \<Rightarrow> string option"

text \<open>\<open>DB.QueryRow(...).Scan(...)\<close>: the first row of the result, \<open>sql.ErrNoRows\<close>
  when there is none, or the driver's error.\<close>

definition QueryRow :: "db \<Rightarrow> stmt \<Rightarrow> 'a list \<Rightarrow> error + 'a" where
  "QueryRow d s rows =
     (case faults d s of
        Some msg \<Rightarrow> Inl (DriverError msg)
      | None \<Rightarrow> (case rows of [] \<Rightarrow> Inl ErrNoRows | r # _ \<Rightarrow> Inr r))"

definition ValidateAccessKey ::
  "db option \<Rightarrow> int \<Rightarrow> string \<Rightarrow> (bool \<times> error option) \<times> db option" where
  "ValidateAccessKey DB now accessKeyID =
     (case DB of
        None \<Rightarrow> ((False, Some (Error ''database not initialized'')), DB)
      | Some d \<Rightarrow>
          (case QueryRow d SelectStatus
                  (map ak_Status (filter (\<lambda>r. ak_AccessKey r = accessKeyID) (access_keys d))) of
             Inl ErrNoRows \<Rightarrow> ((False, None), DB)
           | Inl err \<Rightarrow> ((False, Some err), DB)
           | Inr status \<Rightarrow>
               (case faults d UpdateLastUsed of
                  Some msg \<Rightarrow> ((False, Some (DriverError msg)), DB)
                | None \<Rightarrow>
                    ((status = ''active'', None),
                     Some (d\<lparr>access_keys :=
                        map (\<lambda>r. if ak_AccessKey r = accessKeyID
                                  then r\<lparr>ak_LastUsedAt := Some now\<rparr> else r)
                            (access_keys d)\<rparr>)))))"

text \<open>The deduplication key of a rule, \<open>fmt.Sprintf("%v-%v-%v", ...)\<close>.\<close>

definition perm_key :: "Permissions \<Rightarrow> string" where
  "perm_key perm =
     Sprintf_v (Resources perm) @ ''-'' @ Sprintf_v (Actions perm) @ ''-'' @ Effect perm"

text \<open>
  \<open>permMap\<close> is a Go map from key to rule. It is an association list with distinct keys
  here, \<open>permMap[key] = perm\<close> is \<open>AList.update\<close>, and dereferencing a nil element
  panics (\<open>None\<close> as the result).
\<close>

fun add_perms ::
  "(string \<times> Permissions) list \<Rightarrow> Permissions option list \<Rightarrow> (string \<times> Permissions) list option"
  where
  "add_perms permMap [] = Some permMap"
| "add_perms permMap (None # perms) = None"
| "add_perms permMap (Some perm # perms) =
     add_perms (AList.update (perm_key perm) perm permMap) perms"

datatype 'a outcome = Returns 'a | Fails error | Panics

fun add_role_rows ::
  "(string \<times> Permissions) list \<Rightarrow> payload list \<Rightarrow> (string \<times> Permissions) list outcome" where
  "add_role_rows permMap [] = Returns permMap"
| "add_role_rows permMap (Malformed # rows) = Fails UnmarshalError"
| "add_role_rows permMap (Parsed rolePerms # rows) =
     (case add_perms permMap rolePerms of
        None \<Rightarrow> Panics
      | Some permMap' \<Rightarrow> add_role_rows permMap' rows)"

definition role_rows :: "db \<Rightarrow> string \<Rightarrow> payload list" where
  "role_rows d accessKeyID =
     concat (map (\<lambda>(k, rid). map role_Permissions (filter (\<lambda>r. role_ID r = rid) (roles d)))
                 (filter (\<lambda>(k, rid). k = accessKeyID) (access_key_roles d)))"

text \<open>
  The result lists the values of \<open>permMap\<close> in the map's iteration order, which Go leaves
  unspecified; the model lists them in the order the keys were first inserted.
\<close>

definition GetAccessKeyPermissions :: "db option \<Rightarrow> string \<Rightarrow> Permissions list outcome" where
  "GetAccessKeyPermissions DB accessKeyID =
     (case DB of
        None \<Rightarrow> Fails (Error ''database not initialized'')
      | Some d \<Rightarrow>
          (case QueryRow d SelectPermissions
                  (map ak_Permissions
                     (filter (\<lambda>r. ak_AccessKey r = accessKeyID) (access_keys d))) of
             Inl err \<Rightarrow> Fails err
           | Inr permissions \<Rightarrow>
               (case faults d SelectRolePermissions of
                  Some msg \<Rightarrow> Fails (DriverError msg)
                | None \<Rightarrow>
                    (case permissions of
                       Malformed \<Rightarrow> Fails UnmarshalError
                     | Parsed keyPerms \<Rightarrow>
                         (case add_perms [] keyPerms of
                            None \<Rightarrow> Panics
                          | Some permMap \<Rightarrow>
                              (case add_role_rows permMap (role_rows d accessKeyID) of
                                 Returns permMap' \<Rightarrow> Returns (map snd permMap')
                               | Fails err \<Rightarrow> Fails err
                               | Panics \<Rightarrow> Panics))))))"

definition GenerateSignature :: "string \<Rightarrow> string \<Rightarrow> string" where
  "GenerateSignature accessKeySecret stringToSign =
     base64_encode (hmac_sha256 accessKeySecret stringToSign)"

definition VerifySignature ::
  "db option \<Rightarrow> string \<Rightarrow> string \<Rightarrow> string \<Rightarrow> bool \<times> error option" where
  "VerifySignature DB accessKeyID stringToSign signature =
     (case DB of
        None \<Rightarrow> (False, Some (Error ''database not initialized''))
      | Some d \<Rightarrow>
          (case QueryRow d SelectSecret
                  (map ak_SecretKey
                     (filter (\<lambda>r. ak_AccessKey r = accessKeyID \<and> ak_Status r = ''active'')
                             (access_keys d))) of
             Inl ErrNoRows \<Rightarrow> (False, None)
           | Inl err \<Rightarrow> (False, Some err)
           | Inr secretKey \<Rightarrow> (GenerateSignature secretKey stringToSign = signature, None)))"

section \<open>signature.go: canonical string, signing, verification, policy, middleware\<close>

record SignatureParams =
  AccessKeyID :: string
  Method :: string
  Path :: string
  QueryParams :: "(string \<times> string) list"
  Headers :: "string \<Rightarrow> string option"
  Timestamp :: string
  Content :: string

text \<open>
  A Go \<open>map[string]string\<close> that the code ranges over is an association list with
  distinct keys; the order of the list stands for the iteration order, which Go leaves
  unspecified. Reading a missing key gives the empty string.
\<close>

definition map_index :: "(string \<times> string) list \<Rightarrow> string \<Rightarrow> string" where
  "map_index m k = (case map_of m k of None \<Rightarrow> [] | Some v \<Rightarrow> v)"

definition GenerateStringToSign :: "SignatureParams \<Rightarrow> string" where
  "GenerateStringToSign params =
     (let queryKeys = sort (map fst (QueryParams params));
          queryParts = map (\<lambda>k. k @ ''='' @ map_index (QueryParams params) k) queryKeys;
          parts = [Method params, Path params, Join queryParts ''&'', Timestamp params,
                   if length (Content params) > 0
                   then base64_encode (sha256 (Content params)) else []]
      in Join parts [CHR 0x0A])"

text \<open>
  An \<open>http.Request\<close>, as far as the package reads it: the method, \<open>URL.Path\<close>, the
  values \<open>URL.Query()\<close> parses out of the query string (a map from key to the list of
  its values), the header (a map from canonical key to values) and the body
  (\<open>None\<close> for a nil \<open>Body\<close>).
\<close>

record request =
  req_Method :: string
  req_Path :: string
  req_Query :: "(string \<times> string list) list"
  req_Header :: "string \<Rightarrow> string list option"
  req_Body :: "string option"

definition validHeaderFieldByte :: "char \<Rightarrow> bool" where
  "validHeaderFieldByte c =
     (let n = (of_char c :: nat)
      in (48 \<le> n \<and> n \<le> 57) \<or> (65 \<le> n \<and> n \<le> 90) \<or> (97 \<le> n \<and> n \<le> 122) \<or>
         n \<in> set [33, 35, 36, 37, 38, 39, 42, 43, 45, 46, 94, 95, 96, 124, 126])"

fun canonical_case :: "bool \<Rightarrow> string \<Rightarrow> string" where
  "canonical_case upper [] = []"
| "canonical_case upper (c # cs) =
     (if upper then upper_char c else lower_char c) # canonical_case (c = CHR ''-'') cs"

definition CanonicalMIMEHeaderKey :: "string \<Rightarrow> string" where
  "CanonicalMIMEHeaderKey s = (if list_all validHeaderFieldByte s then canonical_case True s else s)"

definition Header_Set ::
  "(string \<Rightarrow> string list option) \<Rightarrow> string \<Rightarrow> string \<Rightarrow> (string \<Rightarrow> string list option)" where
  "Header_Set h key v = h(CanonicalMIMEHeaderKey key \<mapsto> [v])"

definition Header_Get :: "(string \<Rightarrow> string list option) \<Rightarrow> string \<Rightarrow> string" where
  "Header_Get h key =
     (case h (CanonicalMIMEHeaderKey key) of None \<Rightarrow> [] | Some [] \<Rightarrow> [] | Some (v # _) \<Rightarrow> v)"

text \<open>The loop \<open>for k, v := range req.URL.Query() { if len(v) > 0 { queryParams[k] = v[0] } }\<close>.\<close>

fun first_values ::
  "(string \<times> string) list \<Rightarrow> (string \<times> string list) list \<Rightarrow> (string \<times> string) list" where
  "first_values queryParams [] = queryParams"
| "first_values queryParams ((k, v) # rest) =
     (case v of
        [] \<Rightarrow> first_values queryParams rest
      | v0 # _ \<Rightarrow> first_values (AList.update k v0 queryParams) rest)"

text \<open>The loop over \<open>req.Header\<close>: the first value of every key that has one, leaving
  out the keys for which \<open>skip\<close> holds.\<close>

definition first_headers ::
  "(string \<Rightarrow> bool) \<Rightarrow> (string \<Rightarrow> string list option) \<Rightarrow> (string \<Rightarrow> string option)" where
  "first_headers skip h =
     (\<lambda>k. if skip k then None
          else (case h k of None \<Rightarrow> None | Some [] \<Rightarrow> None | Some (v # _) \<Rightarrow> Some v))"

text \<open>\<open>SignRequest\<close> mutates the request; the model returns the request it leaves.
  \<open>now\<close> is the value of \<open>time.Now().Unix()\<close>.\<close>

definition SignRequest :: "request \<Rightarrow> string \<Rightarrow> string \<Rightarrow> int \<Rightarrow> string \<Rightarrow> request" where
  "SignRequest req accessKeyID accessKeySecret now content =
     (let timestamp = Sprintf_d now;
          h1 = Header_Set (req_Header req) ''X-Access-Key-ID'' accessKeyID;
          h2 = Header_Set h1 ''X-Timestamp'' timestamp;
          queryParams = first_values [] (req_Query req);
          headers = first_headers (\<lambda>k. False) h2;
          params = \<lparr>AccessKeyID = accessKeyID, Method = req_Method req, Path = req_Path req,
                    QueryParams = queryParams, Headers = headers, Timestamp = timestamp,
                    Content = content\<rparr>;
          stringToSign = GenerateStringToSign params;
          signature = GenerateSignature accessKeySecret stringToSign
      in req\<lparr>req_Header := Header_Set h2 ''X-Signature'' signature\<rparr>)"

definition VerifyRequestSignature :: "db option \<Rightarrow> request \<Rightarrow> string \<Rightarrow> bool \<times> error option" where
  "VerifyRequestSignature DB req content =
     (let accessKeyID = Header_Get (req_Header req) ''X-Access-Key-ID'' in
      if accessKeyID = [] then (False, Some (Error ''missing X-Access-Key-ID header''))
      else
        let timestamp = Header_Get (req_Header req) ''X-Timestamp'' in
        if timestamp = [] then (False, Some (Error ''missing X-Timestamp header''))
        else
          let signature = Header_Get (req_Header req) ''X-Signature'' in
          if signature = [] then (False, Some (Error ''missing X-Signature header''))
          else
            let queryParams = first_values [] (req_Query req);
                headers = first_headers (\<lambda>k. k = ''X-Signature'') (req_Header req);
                params = \<lparr>AccessKeyID = accessKeyID, Method = req_Method req,
                          Path = req_Path req, QueryParams = queryParams, Headers = headers,
                          Timestamp = timestamp, Content = content\<rparr>;
                stringToSign = GenerateStringToSign params
            in VerifySignature DB accessKeyID stringToSign signature)"

definition matchPathPattern :: "string \<Rightarrow> string \<Rightarrow> bool" where
  "matchPathPattern pattern path =
     (if HasSuffix pattern ''/*'' then HasPrefix path (TrimSuffix pattern ''/*'')
      else pattern = path)"

fun methodAllowed :: "case_tables \<Rightarrow> string list \<Rightarrow> string \<Rightarrow> bool" where
  "methodAllowed U [] method = False"
| "methodAllowed U (actionStr # actions) method =
     (if ToUpper U actionStr = ToUpper U method \<or> ToUpper U actionStr = ''*'' then True
      else methodAllowed U actions method)"

fun pathAllowed :: "string list \<Rightarrow> string \<Rightarrow> bool" where
  "pathAllowed [] path = False"
| "pathAllowed (resource # resources) path =
     (if matchPathPattern resource path then True else pathAllowed resources path)"

text \<open>The loop of \<open>hasPermission\<close>, with its two flags as arguments.\<close>

fun hasPermission_loop ::
  "case_tables \<Rightarrow> Permissions list \<Rightarrow> string \<Rightarrow> string \<Rightarrow> bool \<Rightarrow> bool \<Rightarrow> bool" where
  "hasPermission_loop U [] method path foundMatch finalAllow = (foundMatch \<and> finalAllow)"
| "hasPermission_loop U (perm # perms) method path foundMatch finalAllow =
     (let effect = ToLower U (Effect perm) in
      if effect \<noteq> ''allow'' \<and> effect \<noteq> ''deny''
      then hasPermission_loop U perms method path foundMatch finalAllow
      else if \<not> methodAllowed U (Actions perm) method
      then hasPermission_loop U perms method path foundMatch finalAllow
      else if pathAllowed (Resources perm) path
      then (if effect = ''deny'' then False
            else hasPermission_loop U perms method path True True)
      else hasPermission_loop U perms method path foundMatch finalAllow)"

definition hasPermission :: "case_tables \<Rightarrow> Permissions list \<Rightarrow> string \<Rightarrow> string \<Rightarrow> bool" where
  "hasPermission U perms method path =
     (if length perms = 0 then False else hasPermission_loop U perms method path False False)"

text \<open>
  What the middleware does with a request: it writes a status and a short body, or it
  calls the next handler with the request, or the goroutine panics. \<open>now\<close> and
  \<open>now'\<close> are the two readings of the clock, in \<open>SignRequest\<close> and in
  \<open>ValidateAccessKey\<close>; the store after the call is returned with the result.
\<close>

datatype gate = Rejected nat string | Forwarded request | Aborted

definition CreateMiddleware ::
  "case_tables \<Rightarrow> db option \<Rightarrow> int \<Rightarrow> int \<Rightarrow> request \<Rightarrow> gate \<times> db option" where
  "CreateMiddleware U DB now now' r0 =
     (let body = (case req_Body r0 of None \<Rightarrow> [] | Some b \<Rightarrow> b);
          r = SignRequest r0 ''14789'' ''wen'' now body
      in case VerifyRequestSignature DB r body of
           (valid, err) \<Rightarrow>
             if err \<noteq> None \<or> \<not> valid then (Rejected 401 ''Invalid signature'', DB)
             else
               let accessKeyID = Header_Get (req_Header r) ''X-Access-Key-ID'' in
               (case ValidateAccessKey DB now' accessKeyID of
                  ((valid', err'), DB') \<Rightarrow>
                    if err' \<noteq> None \<or> \<not> valid' then (Rejected 401 ''Invalid access key'', DB')
                    else
                      (case GetAccessKeyPermissions DB' accessKeyID of
                         Fails e \<Rightarrow> (Rejected 500 ''Error getting permissions'', DB')
                       | Panics \<Rightarrow> (Aborted, DB')
                       | Returns permissions \<Rightarrow>
                           if \<not> hasPermission U permissions (req_Method r) (req_Path r)
                           then (Rejected 403 ''Insufficient permissions'', DB')
                           else (Forwarded r, DB'))))"

section \<open>Notions the properties are stated with\<close>

text \<open>
  The string that \<open>SignRequest\<close> and \<open>VerifyRequestSignature\<close> hand to the HMAC for a
  request, a timestamp and a body (their local variable \<open>stringToSign\<close>). The
  \<open>AccessKeyID\<close> and \<open>Headers\<close> parameters do not enter it.
\<close>

definition stringToSign_of :: "request \<Rightarrow> string \<Rightarrow> string \<Rightarrow> string" where
  "stringToSign_of req timestamp content =
     GenerateStringToSign
       \<lparr>AccessKeyID = [], Method = req_Method req, Path = req_Path req,
        QueryParams = first_values [] (req_Query req), Headers = (\<lambda>k. None),
        Timestamp = timestamp, Content = content\<rparr>"

text \<open>A rule matches a method and a path, in the words of the specification.\<close>

definition rule_matched :: "case_tables \<Rightarrow> Permissions \<Rightarrow> string \<Rightarrow> string \<Rightarrow> bool" where
  "rule_matched U perm method path \<longleftrightarrow>
     (ToLower U (Effect perm) = ''allow'' \<or> ToLower U (Effect perm) = ''deny'') \<and>
     (\<exists>a\<in>set (Actions perm). ToUpper U a = ToUpper U method \<or> a = ''*'') \<and>
     (\<exists>res\<in>set (Resources perm). matchPathPattern res path)"

text \<open>
  Upper-casing a string that is not ASCII never gives the string \<open>*\<close>: Unicode's case
  mapping sends no character to the asterisk and drops none. This is what is used of
  the case tables where a property says that an action token \<open>is\<close> the wildcard.
\<close>

definition star_from_star :: "case_tables \<Rightarrow> bool" where
  "star_from_star U \<longleftrightarrow> (\<forall>s. \<not> is_ascii s \<longrightarrow> unicode_upper U s \<noteq> ''*'')"

text \<open>The parameters of a parsed query string with their first values, for the
  parameters that have a value.\<close>

definition first_value_pairs :: "(string \<times> string list) list \<Rightarrow> (string \<times> string) list" where
  "first_value_pairs q =
     concat (map (\<lambda>(k, v). case v of [] \<Rightarrow> [] | v0 # _ \<Rightarrow> [(k, v0)]) q)"

text \<open>Two parsed query strings with the same keys, that agree on the first value of
  every key.\<close>

definition same_first_values ::
  "(string \<times> string list) list \<Rightarrow> (string \<times> string list) list \<Rightarrow> bool" where
  "same_first_values q1 q2 \<longleftrightarrow>
     list_all2 (\<lambda>(k1, v1) (k2, v2). k1 = k2 \<and> take 1 v1 = take 1 v2) q1 q2"

text \<open>A required transport field is missing from a request.\<close>

definition field_missing :: "request \<Rightarrow> bool" where
  "field_missing req \<longleftrightarrow>
     Header_Get (req_Header req) ''X-Access-Key-ID'' = [] \<or>
     Header_Get (req_Header req) ''X-Timestamp'' = [] \<or>
     Header_Get (req_Header req) ''X-Signature'' = []"

definition read_body :: "request \<Rightarrow> string" where
  "read_body r = (case req_Body r of None \<Rightarrow> [] | Some b \<Rightarrow> b)"

text \<open>The rules a parsed payload holds, the direct rules of a credential and the rules
  of the roles assigned to it; a map from key to rule whose keys are the keys of its
  rules.\<close>

definition rules_of :: "Permissions option list \<Rightarrow> Permissions set" where
  "rules_of perms = {p. Some p \<in> set perms}"

definition direct_rules :: "db \<Rightarrow> string \<Rightarrow> Permissions set" where
  "direct_rules d i =
     (case map ak_Permissions (filter (\<lambda>r. ak_AccessKey r = i) (access_keys d)) of
        Parsed perms # _ \<Rightarrow> rules_of perms | _ \<Rightarrow> {})"

definition role_rules :: "db \<Rightarrow> string \<Rightarrow> Permissions set" where
  "role_rules d i =
     (\<Union>pl\<in>set (role_rows d i). case pl of Parsed perms \<Rightarrow> rules_of perms | Malformed \<Rightarrow> {})"

definition keyed :: "(string \<times> Permissions) list \<Rightarrow> bool" where
  "keyed permMap \<longleftrightarrow>
     distinct (map fst permMap) \<and> (\<forall>(k, p)\<in>set permMap. k = perm_key p)"

subsection \<open>Example data\<close>

text \<open>Case tables that change nothing, for the examples that hold ASCII text only:
  there the tables are not consulted.\<close>

definition plain_tables :: case_tables where
  "plain_tables = \<lparr>unicode_upper = (\<lambda>s. s), unicode_lower = (\<lambda>s. s)\<rparr>"

text \<open>A token with the long s (U+017F, the bytes C5 BF), which Go upper-cases to \<open>S\<close>,
  and case tables that do so.\<close>

definition long_s_post :: string where
  "long_s_post = ''po'' @ [CHR 0xC5, CHR 0xBF] @ ''t''"

definition long_s_tables :: case_tables where
  "long_s_tables =
     \<lparr>unicode_upper = (\<lambda>s. if s = long_s_post then ''POST'' else s),
      unicode_lower = (\<lambda>s. s)\<rparr>"

definition deny_long_s :: Permissions where
  "deny_long_s = \<lparr>Resources = [''x''], Actions = [long_s_post], Effect = ''deny''\<rparr>"

definition allow_post :: Permissions where
  "allow_post = \<lparr>Resources = [''x''], Actions = [''POST''], Effect = ''allow''\<rparr>"

definition sorted_request :: request where
  "sorted_request =
     \<lparr>req_Method = ''GET'', req_Path = ''api/v1/users/42'',
      req_Query = [(''b'', [''2'', ''3'']), (''a'', [''1''])],
      req_Header = (\<lambda>k. None), req_Body = None\<rparr>"

definition allow_users :: Permissions where
  "allow_users = \<lparr>Resources = [''api/v1/users/*''], Actions = [''get''], Effect = ''Allow''\<rparr>"

definition deny_user42 :: Permissions where
  "deny_user42 = \<lparr>Resources = [''api/v1/users/42''], Actions = [''*''], Effect = ''DENY''\<rparr>"

definition gate_key :: access_key_row where
  "gate_key =
     \<lparr>ak_ID = ''14789'', ak_SecretKey = ''wen'', ak_AccessKey = ''14789'', ak_UserID = 1,
      ak_Status = ''active'', ak_Permissions = Parsed [Some allow_users],
      ak_LastUsedAt = None\<rparr>"

definition demo_db :: db where
  "demo_db =
     \<lparr>access_keys = [gate_key], roles = [], access_key_roles = [], faults = (\<lambda>s. None)\<rparr>"



definition demo_request :: request where
  "demo_request =
     \<lparr>req_Method = ''GET'', req_Path = ''api/v1/users/42'',
      req_Query = [(''page'', [''1'', ''2''])],
      req_Header = [''X-Access-Key-Id'' \<mapsto> [''K1''], ''X-Signature'' \<mapsto> [''forged''],
                    ''Accept'' \<mapsto> [''text/plain'']],
      req_Body = None\<rparr>"


definition spaced_rule :: Permissions where
  "spaced_rule = \<lparr>Resources = [''a b''], Actions = [''GET''], Effect = ''allow''\<rparr>"

definition split_rule :: Permissions where
  "split_rule = \<lparr>Resources = [''a'', ''b''], Actions = [''GET''], Effect = ''allow''\<rparr>"

definition collision_db :: db where
  "collision_db =
     \<lparr>access_keys = [gate_key\<lparr>ak_Permissions := Parsed [Some spaced_rule]\<rparr>],
      roles = [\<lparr>role_ID = 1, role_Permissions = Parsed [Some split_rule]\<rparr>],
      access_key_roles = [(''14789'', 1)], faults = (\<lambda>s. None)\<rparr>"

definition duplicate_db :: db where
  "duplicate_db =
     \<lparr>access_keys = [gate_key\<lparr>ak_Permissions := Parsed [Some split_rule]\<rparr>],
      roles = [\<lparr>role_ID = 1, role_Permissions = Parsed [Some split_rule]\<rparr>],
      access_key_roles = [(''14789'', 1)], faults = (\<lambda>s. None)\<rparr>"

section \<open>Path patterns\<close>

lemma matchPathPattern_prefix: "matchPathPattern (pre @ ''/*'') path = HasPrefix path pre"
  by (simp add: matchPathPattern_def HasSuffix_def TrimSuffix_def)

lemma matchPathPattern_exact:
  "\<not> HasSuffix pattern ''/*'' \<Longrightarrow> matchPathPattern pattern path = (pattern = path)"
  by (simp add: matchPathPattern_def)

text \<open>
  C4. The pattern \<open>api/v1/users/*\<close> evaluated on the three paths of the
  specification. A pattern that ends in \<open>/*\<close> loses both characters and what is left,
  \<open>api/v1/users\<close>, is compared as a plain prefix: the first two paths match, and so
  does \<open>api/v1/usersx\<close>, which the specification says is not matched.
\<close>

theorem matchPathPattern_users_prefix:
  "matchPathPattern ''api/v1/users/*'' ''api/v1/users/123'' \<and>
   matchPathPattern ''api/v1/users/*'' ''api/v1/users/123/roles'' \<and>
   matchPathPattern ''api/v1/users/*'' ''api/v1/usersx'' \<and>
   TrimSuffix ''api/v1/users/*'' ''/*'' = ''api/v1/users''"
  by (simp add: matchPathPattern_def HasSuffix_def HasPrefix_def TrimSuffix_def)

section \<open>The policy decision\<close>

lemma upper_char_star: "upper_char c = CHR ''*'' \<longleftrightarrow> c = CHR ''*''"
proof -
  have "of_char c < (256::nat)" by (rule nat_of_char_less_256)
  then show ?thesis
    by (auto simp: upper_char_def Let_def char_of_eq_iff take_bit_eq_mod)
qed

lemma is_ascii_star: "is_ascii ''*''"
  by (simp add: is_ascii_def)

lemma ToUpper_ascii: "is_ascii s \<Longrightarrow> ToUpper U s = map upper_char s"
  by (simp add: ToUpper_def)

lemma ToLower_ascii: "is_ascii s \<Longrightarrow> ToLower U s = map lower_char s"
  by (simp add: ToLower_def)

lemma ToUpper_star:
  assumes "star_from_star U"
  shows "ToUpper U a = ''*'' \<longleftrightarrow> a = ''*''"
proof (cases "is_ascii a")
  case True
  then show ?thesis
    by (cases a) (auto simp: ToUpper_def upper_char_star)
next
  case False
  with assms have "ToUpper U a \<noteq> ''*''"
    by (simp add: ToUpper_def star_from_star_def)
  moreover from False have "a \<noteq> ''*''"
    using is_ascii_star by auto
  ultimately show ?thesis by simp
qed

lemma star_from_star_plain: "star_from_star plain_tables"
  using is_ascii_star by (auto simp: star_from_star_def plain_tables_def)

lemma methodAllowed_iff:
  "star_from_star U \<Longrightarrow>
   methodAllowed U actions method \<longleftrightarrow>
     (\<exists>a\<in>set actions. ToUpper U a = ToUpper U method \<or> a = ''*'')"
  by (induction actions) (auto simp: ToUpper_star)

lemma pathAllowed_iff:
  "pathAllowed resources path \<longleftrightarrow> (\<exists>r\<in>set resources. matchPathPattern r path)"
  by (induction resources) auto

text \<open>The invariant of the loop: the two flags are set together, so the loop answers
  for the rules still to come and for an allow already recorded. It is stated with the
  three tests of the loop body.\<close>

lemma hasPermission_loop_tests:
  "hasPermission_loop U perms method path foundMatch finalAllow \<longleftrightarrow>
     (\<forall>q\<in>set perms.
        (ToLower U (Effect q) = ''allow'' \<or> ToLower U (Effect q) = ''deny'') \<and>
        methodAllowed U (Actions q) method \<and> pathAllowed (Resources q) path \<longrightarrow>
        ToLower U (Effect q) \<noteq> ''deny'') \<and>
     ((\<exists>q\<in>set perms.
        (ToLower U (Effect q) = ''allow'' \<or> ToLower U (Effect q) = ''deny'') \<and>
        methodAllowed U (Actions q) method \<and> pathAllowed (Resources q) path) \<or>
      (foundMatch \<and> finalAllow))"
proof (induction perms arbitrary: foundMatch finalAllow)
  case Nil
  show ?case by simp
next
  case (Cons perm perms)
  let ?tests = "(ToLower U (Effect perm) = ''allow'' \<or> ToLower U (Effect perm) = ''deny'') \<and>
        methodAllowed U (Actions perm) method \<and> pathAllowed (Resources perm) path"
  show ?case
  proof (cases ?tests)
    case False
    then show ?thesis
      using Cons.IH [of foundMatch finalAllow] by (auto simp: Let_def)
  next
    case True
    show ?thesis
    proof (cases "ToLower U (Effect perm) = ''deny''")
      case deny: True
      with True show ?thesis
        by (auto simp: Let_def)
    next
      case allow: False
      with True show ?thesis
        using Cons.IH [of True True] by (auto simp: Let_def)
    qed
  qed
qed

lemma hasPermission_tests:
  "hasPermission U perms method path \<longleftrightarrow>
     (\<forall>q\<in>set perms.
        (ToLower U (Effect q) = ''allow'' \<or> ToLower U (Effect q) = ''deny'') \<and>
        methodAllowed U (Actions q) method \<and> pathAllowed (Resources q) path \<longrightarrow>
        ToLower U (Effect q) \<noteq> ''deny'') \<and>
     (\<exists>q\<in>set perms.
        (ToLower U (Effect q) = ''allow'' \<or> ToLower U (Effect q) = ''deny'') \<and>
        methodAllowed U (Actions q) method \<and> pathAllowed (Resources q) path)"
  by (cases perms)
     (simp_all add: hasPermission_def hasPermission_loop_tests del: hasPermission_loop.simps)

lemma hasPermission_set:
  "set perms' = set perms \<Longrightarrow>
   hasPermission U perms' method path = hasPermission U perms method path"
  by (simp add: hasPermission_tests)

lemma rule_matched_tests:
  "star_from_star U \<Longrightarrow>
   rule_matched U q method path \<longleftrightarrow>
     (ToLower U (Effect q) = ''allow'' \<or> ToLower U (Effect q) = ''deny'') \<and>
     methodAllowed U (Actions q) method \<and> pathAllowed (Resources q) path"
  by (simp add: rule_matched_def methodAllowed_iff pathAllowed_iff)

lemma hasPermission_iff:
  assumes "star_from_star U"
  shows "hasPermission U perms method path \<longleftrightarrow>
     (\<exists>q\<in>set perms. rule_matched U q method path) \<and>
     (\<forall>q\<in>set perms. rule_matched U q method path \<longrightarrow> ToLower U (Effect q) \<noteq> ''deny'')"
  unfolding rule_matched_tests [OF assms] hasPermission_tests by blast

text \<open>
  C2. \<open>hasPermission\<close> returns true exactly when some rule of the list matches the
  method and the path and no matching rule has the effect deny. The answer depends on
  the set of rules only, so a matching deny rule wins wherever it stands in the list,
  and the empty list is refused for every method and path. Case is folded as Go folds
  it, by \<open>strings.ToUpper\<close> and \<open>strings.ToLower\<close>; that an action token which folds to
  the wildcard \<open>*\<close> is the wildcard is the one thing used of the case tables.
\<close>

theorem hasPermission_decision:
  "(star_from_star U \<longrightarrow>
      (hasPermission U perms method path \<longleftrightarrow>
         (\<exists>q\<in>set perms. rule_matched U q method path) \<and>
         (\<forall>q\<in>set perms. rule_matched U q method path \<longrightarrow>
             ToLower U (Effect q) \<noteq> ''deny''))) \<and>
   (set perms' = set perms \<longrightarrow>
      hasPermission U perms' method path = hasPermission U perms method path) \<and>
   \<not> hasPermission U [] method path"
  using hasPermission_iff [of U perms "method" "path"]
        hasPermission_set [of perms' perms U "method" "path"]
  by (simp add: hasPermission_def)

lemma allow_users_matched: "rule_matched U allow_users ''GET'' ''api/v1/users/42''"
  by (simp add: rule_matched_def allow_users_def ToLower_def ToUpper_def is_ascii_def
        lower_char_def upper_char_def char_of_eq_iff take_bit_eq_mod matchPathPattern_def
        HasSuffix_def HasPrefix_def TrimSuffix_def)

lemma allow_users_effect: "ToLower U (Effect allow_users) \<noteq> ''deny''"
  by (simp add: allow_users_def ToLower_def is_ascii_def lower_char_def char_of_eq_iff
        take_bit_eq_mod)

lemma deny_user42_matched:
  "rule_matched U deny_user42 ''GET'' ''api/v1/users/42'' \<and>
   ToLower U (Effect deny_user42) = ''deny''"
  by (simp add: rule_matched_def deny_user42_def ToLower_def ToUpper_def is_ascii_def
        lower_char_def upper_char_def char_of_eq_iff take_bit_eq_mod matchPathPattern_def
        HasSuffix_def HasPrefix_def TrimSuffix_def)

lemma star_from_star_long_s: "star_from_star long_s_tables"
  using is_ascii_star by (auto simp: star_from_star_def long_s_tables_def)

lemma long_s_upper: "ToUpper long_s_tables long_s_post = ''POST''"
  by (simp add: ToUpper_def long_s_tables_def long_s_post_def is_ascii_def)

lemma post_upper: "ToUpper U ''POST'' = ''POST''"
  by (simp add: ToUpper_def is_ascii_def upper_char_def)

lemma deny_long_s_matched:
  "rule_matched long_s_tables deny_long_s ''POST'' ''x'' \<and>
   ToLower long_s_tables (Effect deny_long_s) = ''deny''"
  by (simp add: rule_matched_def deny_long_s_def long_s_upper post_upper ToLower_def
        is_ascii_def lower_char_def matchPathPattern_def HasSuffix_def)

lemma allow_post_matched:
  "rule_matched U allow_post ''POST'' ''x'' \<and> ToLower U (Effect allow_post) \<noteq> ''deny''"
  by (simp add: rule_matched_def allow_post_def ToLower_def is_ascii_def lower_char_def
        matchPathPattern_def HasSuffix_def)

theorem hasPermission_decision_witness:
  "star_from_star plain_tables \<and>
   \<not> hasPermission plain_tables [allow_users, deny_user42] ''GET'' ''api/v1/users/42'' \<and>
   \<not> hasPermission plain_tables [deny_user42, allow_users] ''GET'' ''api/v1/users/42'' \<and>
   hasPermission plain_tables [allow_users] ''GET'' ''api/v1/users/42'' \<and>
   star_from_star long_s_tables \<and>
   \<not> hasPermission long_s_tables [deny_long_s, allow_post] ''POST'' ''x'' \<and>
   hasPermission long_s_tables [allow_post] ''POST'' ''x''"
proof -
  have plain: "\<not> hasPermission plain_tables [allow_users, deny_user42] ''GET'' ''api/v1/users/42'' \<and>
      \<not> hasPermission plain_tables [deny_user42, allow_users] ''GET'' ''api/v1/users/42'' \<and>
      hasPermission plain_tables [allow_users] ''GET'' ''api/v1/users/42''"
    using hasPermission_decision [of plain_tables "[allow_users, deny_user42]"
            "''GET''" "''api/v1/users/42''" "[deny_user42, allow_users]"]
          hasPermission_decision [of plain_tables "[allow_users]" "''GET''"
            "''api/v1/users/42''" "[allow_users]"]
          allow_users_matched [of plain_tables] allow_users_effect [of plain_tables]
          deny_user42_matched [of plain_tables] star_from_star_plain
    by auto
  have long_s: "\<not> hasPermission long_s_tables [deny_long_s, allow_post] ''POST'' ''x'' \<and>
      hasPermission long_s_tables [allow_post] ''POST'' ''x''"
    using hasPermission_decision [of long_s_tables "[deny_long_s, allow_post]" "''POST''"
            "''x''" "[allow_post, deny_long_s]"]
          hasPermission_decision [of long_s_tables "[allow_post]" "''POST''" "''x''"
            "[allow_post]"]
          deny_long_s_matched allow_post_matched [of long_s_tables] star_from_star_long_s
    by auto
  from plain long_s star_from_star_plain star_from_star_long_s show ?thesis
    by blast
qed

section \<open>The canonical string\<close>

lemma sort_keys_eq:
  assumes "distinct (xs :: string list)" and "distinct ys" and "set xs = set ys"
  shows "sort xs = sort ys"
  using assms by (intro sorted_distinct_set_unique) simp_all

lemma map_index_eq:
  assumes "distinct (map fst q1)" and "distinct (map fst q2)" and "set q1 = set q2"
  shows "map_index q1 = map_index q2"
proof -
  have "map_of q1 = map_of q2"
    using assms by (simp add: map_of_inject_set)
  then show ?thesis by (simp add: map_index_def fun_eq_iff)
qed

text \<open>
  C9. Two query-parameter maps that hold the same key/value pairs, whatever the order
  in which the pairs are listed or ranged over, give the same canonical string: the keys
  are sorted before the pairs are rendered.
\<close>

theorem GenerateStringToSign_order_independent:
  assumes "distinct (map fst q1)" and "distinct (map fst q2)" and "set q1 = set q2"
  shows "GenerateStringToSign (params\<lparr>QueryParams := q1\<rparr>) =
         GenerateStringToSign (params\<lparr>QueryParams := q2\<rparr>)"
proof -
  have keys: "sort (map fst q1) = sort (map fst q2)"
  proof (rule sort_keys_eq)
    show "set (map fst q1) = set (map fst q2)" using assms(3) by simp
  qed (use assms in simp_all)
  show ?thesis
    by (simp add: GenerateStringToSign_def keys map_index_eq [OF assms])
qed

theorem GenerateStringToSign_order_independent_witness:
  "GenerateStringToSign
     \<lparr>AccessKeyID = ''K1'', Method = ''GET'', Path = ''api/v1/users/42'',
      QueryParams = [(''a'', ''1''), (''b'', ''2'')], Headers = (\<lambda>k. None),
      Timestamp = ''1714000000'', Content = []\<rparr> =
   GenerateStringToSign
     \<lparr>AccessKeyID = ''K1'', Method = ''GET'', Path = ''api/v1/users/42'',
      QueryParams = [(''b'', ''2''), (''a'', ''1'')], Headers = (\<lambda>k. None),
      Timestamp = ''1714000000'', Content = []\<rparr>"
  using GenerateStringToSign_order_independent
    [of "[(''a'', ''1''), (''b'', ''2'')]" "[(''b'', ''2''), (''a'', ''1'')]"
        "\<lparr>AccessKeyID = ''K1'', Method = ''GET'', Path = ''api/v1/users/42'',
          QueryParams = [], Headers = (\<lambda>k. None), Timestamp = ''1714000000'',
          Content = []\<rparr>"]
  by (simp add: insert_commute)

section \<open>Signing and verifying a request\<close>

lemma first_values_same:
  "same_first_values q1 q2 \<Longrightarrow> first_values acc q1 = first_values acc q2"
  unfolding same_first_values_def
proof (induction q1 q2 arbitrary: acc rule: list_all2_induct)
  case Nil
  show ?case by simp
next
  case (Cons x xs y ys)
  then show ?case
    by (cases x; cases y) (auto split: list.splits)
qed

lemma canon_keys:
  "CanonicalMIMEHeaderKey ''X-Access-Key-ID'' = ''X-Access-Key-Id''"
  "CanonicalMIMEHeaderKey ''X-Timestamp'' = ''X-Timestamp''"
  "CanonicalMIMEHeaderKey ''X-Signature'' = ''X-Signature''"
  by code_simp+

lemma Sprintf_nat_nonempty: "Sprintf_nat n \<noteq> []"
  by (subst Sprintf_nat.simps) simp

lemma Sprintf_d_nonempty: "Sprintf_d n \<noteq> []"
  by (simp add: Sprintf_d_def Sprintf_nat_nonempty)

lemma digest256_nonempty: "digest256 st \<noteq> []"
  by (cases st rule: digest256.cases) (simp add: word_bytes_def)

lemma sha256_nonempty: "sha256 m \<noteq> []"
  by (simp add: sha256_def digest256_nonempty)

lemma base64_encode_nonempty: "s \<noteq> [] \<Longrightarrow> base64_encode s \<noteq> []"
  by (cases s rule: base64_encode.cases) (simp_all add: Let_def)

lemma GenerateSignature_nonempty: "GenerateSignature secret s \<noteq> []"
  by (simp add: GenerateSignature_def hmac_sha256_def Let_def base64_encode_nonempty sha256_nonempty)

lemma SignRequest_fields:
  "req_Method (SignRequest r i s now c) = req_Method r"
  "req_Path (SignRequest r i s now c) = req_Path r"
  "req_Query (SignRequest r i s now c) = req_Query r"
  "req_Body (SignRequest r i s now c) = req_Body r"
  by (simp_all add: SignRequest_def Let_def)

lemma SignRequest_Header:
  "req_Header (SignRequest r i s now c) =
     (req_Header r)(''X-Access-Key-Id'' \<mapsto> [i], ''X-Timestamp'' \<mapsto> [Sprintf_d now],
        ''X-Signature'' \<mapsto> [GenerateSignature s (stringToSign_of r (Sprintf_d now) c)])"
  by (simp add: SignRequest_def Let_def Header_Set_def canon_keys stringToSign_of_def
        GenerateStringToSign_def)

lemma SignRequest_Header_Get:
  "Header_Get (req_Header (SignRequest r i s now c)) ''X-Access-Key-ID'' = i"
  "Header_Get (req_Header (SignRequest r i s now c)) ''X-Timestamp'' = Sprintf_d now"
  "Header_Get (req_Header (SignRequest r i s now c)) ''X-Signature'' =
     GenerateSignature s (stringToSign_of r (Sprintf_d now) c)"
  by (simp_all add: SignRequest_Header Header_Get_def canon_keys)

lemma VerifyRequestSignature_present:
  "\<not> field_missing req \<Longrightarrow>
   VerifyRequestSignature DB req c =
     VerifySignature DB (Header_Get (req_Header req) ''X-Access-Key-ID'')
       (stringToSign_of req (Header_Get (req_Header req) ''X-Timestamp'') c)
       (Header_Get (req_Header req) ''X-Signature'')"
  by (simp add: field_missing_def VerifyRequestSignature_def Let_def stringToSign_of_def
        GenerateStringToSign_def)

lemma stringToSign_of_SignRequest:
  "stringToSign_of (SignRequest r i s now c) ts c' = stringToSign_of r ts c'"
  by (simp add: stringToSign_of_def SignRequest_fields)

lemma Verify_SignRequest:
  "i \<noteq> [] \<Longrightarrow>
   VerifyRequestSignature DB (SignRequest r i s now c) c =
     VerifySignature DB i (stringToSign_of r (Sprintf_d now) c)
       (GenerateSignature s (stringToSign_of r (Sprintf_d now) c))"
  by (subst VerifyRequestSignature_present)
     (simp_all add: field_missing_def SignRequest_Header_Get Sprintf_d_nonempty
        GenerateSignature_nonempty stringToSign_of_SignRequest)

text \<open>What the loop over the parsed query string leaves, and what the canonical
  string of a request therefore is.\<close>

lemma update_fresh: "k \<notin> fst ` set al \<Longrightarrow> AList.update k v al = al @ [(k, v)]"
  by (induction al) auto

lemma first_value_pairs_simps:
  "first_value_pairs [] = []"
  "first_value_pairs ((k, []) # q) = first_value_pairs q"
  "first_value_pairs ((k, v0 # vs) # q) = (k, v0) # first_value_pairs q"
  by (simp_all add: first_value_pairs_def)

lemma first_values_pairs:
  "distinct (map fst q) \<Longrightarrow> fst ` set acc \<inter> fst ` set q = {} \<Longrightarrow>
   first_values acc q = acc @ first_value_pairs q"
proof (induction q arbitrary: acc)
  case Nil
  show ?case by (simp add: first_value_pairs_def)
next
  case (Cons x q)
  obtain k v where x: "x = (k, v)" by (cases x)
  show ?case
  proof (cases v)
    case Nil
    with Cons x show ?thesis
      by (simp add: first_value_pairs_def)
  next
    case (Cons v0 vs)
    have fresh: "k \<notin> fst ` set acc"
      using Cons.prems(2) x by auto
    have disj: "fst ` set (acc @ [(k, v0)]) \<inter> fst ` set q = {}"
      using Cons.prems x by auto
    have "distinct (map fst q)"
      using Cons.prems(1) by simp
    from Cons.IH [OF this disj] show ?thesis
      by (simp add: x Cons update_fresh [OF fresh] first_value_pairs_def)
  qed
qed

lemma first_value_pairs_keys: "fst ` set (first_value_pairs q) \<subseteq> fst ` set q"
proof (induction q)
  case Nil
  show ?case by (simp add: first_value_pairs_simps)
next
  case (Cons x q)
  obtain k v where x: "x = (k, v)" by (cases x)
  from Cons show ?case
    by (cases v) (auto simp: x first_value_pairs_simps)
qed

lemma first_value_pairs_distinct:
  "distinct (map fst q) \<Longrightarrow> distinct (map fst (first_value_pairs q))"
proof (induction q)
  case Nil
  show ?case by (simp add: first_value_pairs_simps)
next
  case (Cons x q)
  obtain k v where x: "x = (k, v)" by (cases x)
  have "k \<notin> fst ` set (first_value_pairs q)"
    using Cons.prems first_value_pairs_keys [of q] x by auto
  with Cons show ?case
    by (cases v) (simp_all add: x first_value_pairs_simps)
qed

lemma sorted_pairs_render:
  assumes "distinct (map fst ps)"
  shows "map (\<lambda>k. k @ ''='' @ map_index ps k) (sort (map fst ps)) =
         map (\<lambda>(k, v). k @ ''='' @ v) (sort_key fst ps)"
proof -
  have keys: "sort (map fst ps) = map fst (sort_key fst ps)"
  proof (rule sorted_distinct_set_unique)
    show "distinct (map fst (sort_key fst ps))"
      using assms by (simp add: distinct_map)
  qed (use assms in simp_all)
  have "map_index ps k = v" if "(k, v) \<in> set (sort_key fst ps)" for k v
    using that assms by (simp add: map_index_def)
  then show ?thesis
    unfolding keys by (auto simp: comp_def)
qed

lemma stringToSign_of_rendered:
  assumes "distinct (map fst (req_Query r))"
  shows "stringToSign_of r ts c =
     Join [req_Method r, req_Path r,
           Join (map (\<lambda>(k, v0). k @ ''='' @ v0) (sort_key fst (first_value_pairs (req_Query r))))
             ''&'',
           ts, if length c > 0 then base64_encode (sha256 c) else []] [CHR 0x0A]"
proof -
  have fv: "first_values [] (req_Query r) = first_value_pairs (req_Query r)"
    using first_values_pairs [OF assms, of "[]"] by simp
  show ?thesis
    using sorted_pairs_render [OF first_value_pairs_distinct [OF assms]]
    by (simp add: stringToSign_of_def GenerateStringToSign_def fv)
qed

text \<open>
  C10. Only the first value of a query parameter enters the canonical string, in
  \<open>SignRequest\<close> and in \<open>VerifyRequestSignature\<close> alike: the map both build from the
  parsed query string holds every parameter with its first value, both hand
  \<open>stringToSign_of\<close> to the HMAC, and its third line lists \<open>key=first value\<close> in the
  order of the keys. Hence two requests that differ only in the second and later values
  of their parameters have the same canonical string, are signed with the same headers,
  and one verifies exactly when the other does.
\<close>

theorem repeated_query_values_ignored:
  assumes "same_first_values (req_Query r) q'"
  shows "(distinct (map fst (req_Query r)) \<longrightarrow>
            first_values [] (req_Query r) = first_value_pairs (req_Query r) \<and>
            stringToSign_of r ts c =
              Join [req_Method r, req_Path r,
                    Join (map (\<lambda>(k, v0). k @ ''='' @ v0)
                              (sort_key fst (first_value_pairs (req_Query r)))) ''&'',
                    ts, if length c > 0 then base64_encode (sha256 c) else []]
                   [CHR 0x0A]) \<and>
         Header_Get (req_Header (SignRequest r i s now c)) ''X-Signature'' =
           GenerateSignature s (stringToSign_of r (Sprintf_d now) c) \<and>
         (\<not> field_missing r \<longrightarrow>
            VerifyRequestSignature DB r c =
              VerifySignature DB (Header_Get (req_Header r) ''X-Access-Key-ID'')
                (stringToSign_of r (Header_Get (req_Header r) ''X-Timestamp'') c)
                (Header_Get (req_Header r) ''X-Signature'')) \<and>
         first_values [] q' = first_values [] (req_Query r) \<and>
         stringToSign_of (r\<lparr>req_Query := q'\<rparr>) ts c = stringToSign_of r ts c \<and>
         req_Header (SignRequest (r\<lparr>req_Query := q'\<rparr>) i s now c) =
           req_Header (SignRequest r i s now c) \<and>
         VerifyRequestSignature DB (r\<lparr>req_Query := q'\<rparr>) c = VerifyRequestSignature DB r c"
proof -
  have pairs: "first_values [] (req_Query r) = first_value_pairs (req_Query r)"
    if "distinct (map fst (req_Query r))"
    using first_values_pairs [OF that, of "[]"] by simp
  have fv: "first_values [] q' = first_values [] (req_Query r)"
    using assms by (simp add: first_values_same)
  have sts: "stringToSign_of (r\<lparr>req_Query := q'\<rparr>) t b = stringToSign_of r t b" for t b
    by (simp add: stringToSign_of_def fv)
  have hdr: "req_Header (SignRequest (r\<lparr>req_Query := q'\<rparr>) i s now c) =
             req_Header (SignRequest r i s now c)"
    by (simp add: SignRequest_Header sts)
  have ver: "VerifyRequestSignature DB (r\<lparr>req_Query := q'\<rparr>) c = VerifyRequestSignature DB r c"
    by (simp add: VerifyRequestSignature_def fv Let_def)
  from pairs stringToSign_of_rendered [of r ts c] SignRequest_Header_Get(3) [of r i s now c]
    VerifyRequestSignature_present [of r DB c] fv sts [of ts c] hdr ver
  show ?thesis by blast
qed

theorem repeated_query_values_ignored_witness:
  "stringToSign_of sorted_request ''1714000000'' [] =
     ''GET'' @ [CHR 0x0A] @ ''api/v1/users/42'' @ [CHR 0x0A] @ ''a=1&b=2'' @ [CHR 0x0A] @
     ''1714000000'' @ [CHR 0x0A] \<and>
   stringToSign_of (sorted_request\<lparr>req_Query := [(''b'', [''2'', ''9'']), (''a'', [''1'', ''8''])]\<rparr>)
     ''1714000000'' [] = stringToSign_of sorted_request ''1714000000'' [] \<and>
   stringToSign_of (demo_request\<lparr>req_Query := [(''page'', [''1'', ''9'', ''7''])]\<rparr>) ''1714000000'' [] =
     stringToSign_of demo_request ''1714000000'' [] \<and>
   VerifyRequestSignature (Some demo_db)
     ((SignRequest demo_request ''14789'' ''wen'' 1714000000 [])\<lparr>req_Query := [(''page'', [''1'', ''9'', ''7''])]\<rparr>) [] =
   VerifyRequestSignature (Some demo_db) (SignRequest demo_request ''14789'' ''wen'' 1714000000 []) []"
proof -
  have d: "distinct (map fst (req_Query sorted_request))"
    by (simp add: sorted_request_def)
  have g: "same_first_values (req_Query sorted_request)
             [(''b'', [''2'', ''9'']), (''a'', [''1'', ''8''])]"
    by (simp add: same_first_values_def sorted_request_def)
  have line: "Join (map (\<lambda>(k, v0). k @ ''='' @ v0)
                     (sort_key fst (first_value_pairs (req_Query sorted_request)))) ''&'' =
              ''a=1&b=2''"
    by (simp add: sorted_request_def first_value_pairs_simps)
  have fields: "req_Method sorted_request = ''GET''" "req_Path sorted_request = ''api/v1/users/42''"
    by (simp_all add: sorted_request_def)
  have h: "same_first_values (req_Query demo_request) [(''page'', [''1'', ''9'', ''7''])]"
    by (simp add: same_first_values_def demo_request_def)
  have h': "same_first_values (req_Query (SignRequest demo_request ''14789'' ''wen'' 1714000000 []))
              [(''page'', [''1'', ''9'', ''7''])]"
    using h by (simp add: SignRequest_fields)
  note sorted = repeated_query_values_ignored [OF g, of "''1714000000''" "[]"]
  from sorted d
  have "stringToSign_of sorted_request ''1714000000'' [] =
          Join [req_Method sorted_request, req_Path sorted_request,
                Join (map (\<lambda>(k, v0). k @ ''='' @ v0)
                          (sort_key fst (first_value_pairs (req_Query sorted_request)))) ''&'',
                ''1714000000'', if length ([] :: string) > 0 then base64_encode (sha256 []) else []]
               [CHR 0x0A]"
    by blast
  then have rendered: "stringToSign_of sorted_request ''1714000000'' [] =
     ''GET'' @ [CHR 0x0A] @ ''api/v1/users/42'' @ [CHR 0x0A] @ ''a=1&b=2'' @ [CHR 0x0A] @
     ''1714000000'' @ [CHR 0x0A]"
    unfolding line fields by simp
  from sorted
  have same: "stringToSign_of
      (sorted_request\<lparr>req_Query := [(''b'', [''2'', ''9'']), (''a'', [''1'', ''8''])]\<rparr>)
      ''1714000000'' [] = stringToSign_of sorted_request ''1714000000'' []"
    by blast
  from repeated_query_values_ignored [OF h, of "''1714000000''" "[]"]
  have page: "stringToSign_of (demo_request\<lparr>req_Query := [(''page'', [''1'', ''9'', ''7''])]\<rparr>)
      ''1714000000'' [] = stringToSign_of demo_request ''1714000000'' []"
    by blast
  from repeated_query_values_ignored [OF h', of _ "[]" _ _ _ "Some demo_db"]
  have verify: "VerifyRequestSignature (Some demo_db)
     ((SignRequest demo_request ''14789'' ''wen'' 1714000000 [])\<lparr>req_Query := [(''page'', [''1'', ''9'', ''7''])]\<rparr>) [] =
     VerifyRequestSignature (Some demo_db) (SignRequest demo_request ''14789'' ''wen'' 1714000000 []) []"
    by blast
  from rendered same page verify show ?thesis
    by blast
qed

section \<open>The middleware\<close>


text \<open>The middleware after its own signature has been traced through
  \<open>VerifyRequestSignature\<close>: the credential it checks is always \<open>14789\<close>.\<close>

lemma CreateMiddleware_eq:
  "CreateMiddleware U DB now now' r0 =
     (let r = SignRequest r0 ''14789'' ''wen'' now (read_body r0) in
      case VerifySignature DB ''14789'' (stringToSign_of r0 (Sprintf_d now) (read_body r0))
             (GenerateSignature ''wen'' (stringToSign_of r0 (Sprintf_d now) (read_body r0))) of
        (valid, err) \<Rightarrow>
          if err \<noteq> None \<or> \<not> valid then (Rejected 401 ''Invalid signature'', DB)
          else
            (case ValidateAccessKey DB now' ''14789'' of
               ((valid', err'), DB') \<Rightarrow>
                 if err' \<noteq> None \<or> \<not> valid' then (Rejected 401 ''Invalid access key'', DB')
                 else
                   (case GetAccessKeyPermissions DB' ''14789'' of
                      Fails e \<Rightarrow> (Rejected 500 ''Error getting permissions'', DB')
                    | Panics \<Rightarrow> (Aborted, DB')
                    | Returns permissions \<Rightarrow>
                        if \<not> hasPermission U permissions (req_Method r0) (req_Path r0)
                        then (Rejected 403 ''Insufficient permissions'', DB')
                        else (Forwarded r, DB'))))"
  by (simp add: CreateMiddleware_def Let_def read_body_def [symmetric] Verify_SignRequest
        SignRequest_Header_Get SignRequest_fields
        cong: prod.case_cong if_cong outcome.case_cong)



section \<open>Verifying what was signed\<close>

lemma VerifySignature_row:
  assumes "faults d SelectSecret = None"
    and "filter (\<lambda>row. ak_AccessKey row = i \<and> ak_Status row = ''active'') (access_keys d)
           = row # rows"
  shows "VerifySignature (Some d) i s sg = (GenerateSignature (ak_SecretKey row) s = sg, None)"
  using assms by (simp add: VerifySignature_def QueryRow_def)





lemma demo_active_rows:
  "filter (\<lambda>row. ak_AccessKey row = ''14789'' \<and> ak_Status row = ''active'')
     (access_keys demo_db) = [gate_key]"
  "filter (\<lambda>row. ak_AccessKey row = ''14789'') (access_keys demo_db) = [gate_key]"
  "faults demo_db s = None"
  by (simp_all add: demo_db_def gate_key_def)




section \<open>What the protected handler receives\<close>

text \<open>The example request is authorized against the example store.\<close>

lemma demo_permissions:
  "faults d SelectPermissions = None \<Longrightarrow> faults d SelectRolePermissions = None \<Longrightarrow>
   access_keys d = [gate_key\<lparr>ak_LastUsedAt := t\<rparr>] \<Longrightarrow> access_key_roles d = [] \<Longrightarrow>
   GetAccessKeyPermissions (Some d) ''14789'' = Returns [allow_users]"
  by (simp add: GetAccessKeyPermissions_def QueryRow_def gate_key_def role_rows_def)

lemma demo_validate:
  "ValidateAccessKey (Some demo_db) now' ''14789'' =
     ((True, None), Some (demo_db\<lparr>access_keys := [gate_key\<lparr>ak_LastUsedAt := Some now'\<rparr>]\<rparr>))"
  by (simp add: ValidateAccessKey_def QueryRow_def demo_db_def gate_key_def)

lemma demo_forwarded:
  "CreateMiddleware plain_tables (Some demo_db) now now' demo_request =
     (Forwarded (SignRequest demo_request ''14789'' ''wen'' now []),
      Some (demo_db\<lparr>access_keys := [gate_key\<lparr>ak_LastUsedAt := Some now'\<rparr>]\<rparr>))"
proof -
  have body: "read_body demo_request = []"
    by (simp add: read_body_def demo_request_def)
  have verify: "VerifySignature (Some demo_db) ''14789'' s (GenerateSignature ''wen'' s) =
                  (True, None)" for s
    by (simp add: VerifySignature_row [OF demo_active_rows(3) demo_active_rows(1)])
       (simp add: gate_key_def)
  have perms: "GetAccessKeyPermissions
                 (Some (demo_db\<lparr>access_keys := [gate_key\<lparr>ak_LastUsedAt := Some now'\<rparr>]\<rparr>))
                 ''14789'' = Returns [allow_users]"
    by (rule demo_permissions) (simp_all add: demo_db_def)
  have allowed: "hasPermission plain_tables [allow_users] (req_Method demo_request)
                   (req_Path demo_request)"
    using allow_users_matched [of plain_tables] allow_users_effect [of plain_tables]
    by (simp add: hasPermission_iff [OF star_from_star_plain] demo_request_def)
  show ?thesis
    by (simp add: CreateMiddleware_eq body verify demo_validate perms allowed)
qed

text \<open>
  C6. When the middleware calls the protected handler, the request it passes on is the
  inbound request as \<open>SignRequest\<close> left it: the method, the path, the query, the body
  and every header other than the three transport fields are those received, and the
  three transport fields hold the fixed credential id, the timestamp taken by the
  middleware and the signature it computed.
\<close>

theorem CreateMiddleware_forwards_signed_request:
  assumes "fst (CreateMiddleware U DB now now' r) = Forwarded r'"
  shows "r' = SignRequest r ''14789'' ''wen'' now (read_body r) \<and>
         req_Method r' = req_Method r \<and> req_Path r' = req_Path r \<and>
         req_Query r' = req_Query r \<and> req_Body r' = req_Body r \<and>
         (\<forall>k. k \<notin> {''X-Access-Key-Id'', ''X-Timestamp'', ''X-Signature''} \<longrightarrow>
              req_Header r' k = req_Header r k) \<and>
         req_Header r' ''X-Access-Key-Id'' = Some [''14789''] \<and>
         req_Header r' ''X-Timestamp'' = Some [Sprintf_d now] \<and>
         req_Header r' ''X-Signature'' =
           Some [GenerateSignature ''wen'' (stringToSign_of r (Sprintf_d now) (read_body r))]"
proof -
  have "r' = SignRequest r ''14789'' ''wen'' now (read_body r)"
    using assms
    by (auto simp: CreateMiddleware_eq Let_def split: prod.splits if_splits outcome.splits)
  then show ?thesis
    by (simp add: SignRequest_fields SignRequest_Header)
qed

theorem CreateMiddleware_forwards_signed_request_witness:
  "fst (CreateMiddleware plain_tables (Some demo_db) 1714000000 1714000001 demo_request) =
     Forwarded (SignRequest demo_request ''14789'' ''wen'' 1714000000 []) \<and>
   req_Method (SignRequest demo_request ''14789'' ''wen'' 1714000000 []) = ''GET'' \<and>
   req_Header (SignRequest demo_request ''14789'' ''wen'' 1714000000 []) ''Accept'' =
     Some [''text/plain''] \<and>
   req_Header (SignRequest demo_request ''14789'' ''wen'' 1714000000 []) ''X-Access-Key-Id'' =
     Some [''14789'']"
proof -
  have fwd: "fst (CreateMiddleware plain_tables (Some demo_db) 1714000000 1714000001 demo_request) =
     Forwarded (SignRequest demo_request ''14789'' ''wen'' 1714000000 [])"
    by (simp add: demo_forwarded)
  note sent = CreateMiddleware_forwards_signed_request [OF fwd]
  have given: "req_Method demo_request = ''GET''"
    "req_Header demo_request ''Accept'' = Some [''text/plain'']"
    by (simp_all add: demo_request_def)
  from sent have "\<forall>k. k \<notin> {''X-Access-Key-Id'', ''X-Timestamp'', ''X-Signature''} \<longrightarrow>
      req_Header (SignRequest demo_request ''14789'' ''wen'' 1714000000 []) k =
      req_Header demo_request k"
    by blast
  then have "req_Header (SignRequest demo_request ''14789'' ''wen'' 1714000000 []) ''Accept'' =
             req_Header demo_request ''Accept''"
    by simp
  moreover from sent
  have "req_Method (SignRequest demo_request ''14789'' ''wen'' 1714000000 []) =
          req_Method demo_request"
    and "req_Header (SignRequest demo_request ''14789'' ''wen'' 1714000000 [])
          ''X-Access-Key-Id'' = Some [''14789'']"
    by blast+
  ultimately show ?thesis
    using fwd given by simp
qed

text \<open>A request that arrives with the credential id \<open>K1\<close> and no timestamp is
  forwarded with the credential id \<open>14789\<close> and a timestamp.\<close>

theorem forwarded_request_modified_counterexample:
  "fst (CreateMiddleware plain_tables (Some demo_db) 1714000000 1714000001 demo_request) =
     Forwarded (SignRequest demo_request ''14789'' ''wen'' 1714000000 []) \<and>
   Header_Get (req_Header demo_request) ''X-Access-Key-ID'' = ''K1'' \<and>
   Header_Get (req_Header (SignRequest demo_request ''14789'' ''wen'' 1714000000 []))
     ''X-Access-Key-ID'' = ''14789'' \<and>
   Header_Get (req_Header demo_request) ''X-Timestamp'' = [] \<and>
   Header_Get (req_Header (SignRequest demo_request ''14789'' ''wen'' 1714000000 []))
     ''X-Timestamp'' = Sprintf_d 1714000000 \<and>
   SignRequest demo_request ''14789'' ''wen'' 1714000000 [] \<noteq> demo_request"
proof -
  have a: "Header_Get (req_Header demo_request) ''X-Access-Key-ID'' = ''K1''"
    and b: "Header_Get (req_Header demo_request) ''X-Timestamp'' = []"
    by (simp_all add: demo_request_def Header_Get_def canon_keys)
  have "Header_Get (req_Header (SignRequest demo_request ''14789'' ''wen'' 1714000000 []))
          ''X-Access-Key-ID'' \<noteq> Header_Get (req_Header demo_request) ''X-Access-Key-ID''"
    by (simp add: SignRequest_Header_Get a)
  then have "SignRequest demo_request ''14789'' ''wen'' 1714000000 [] \<noteq> demo_request"
    by auto
  then show ?thesis
    by (simp add: demo_forwarded SignRequest_Header_Get a b)
qed

section \<open>Validating the credential\<close>







section \<open>Errors of verification\<close>








section \<open>The effective permissions\<close>

lemma rules_of_simps:
  "rules_of [] = {}" "rules_of (Some p # perms) = insert p (rules_of perms)"
  "rules_of (None # perms) = rules_of perms"
  by (auto simp: rules_of_def)

lemma set_update_subset:
  "set (AList.update k v al) \<subseteq> insert (k, v) (set al)"
  by (induction al) auto

lemma keyed_update: "keyed permMap \<Longrightarrow> keyed (AList.update (perm_key perm) perm permMap)"
  unfolding keyed_def
  using set_update_subset [of "perm_key perm" perm permMap]
  by (auto simp: distinct_update)

lemma values_update:
  "snd ` set (AList.update k v al) \<subseteq> insert v (snd ` set al)"
  using set_update_subset [of k v al] by force

lemma add_perms_keyed:
  "add_perms permMap perms = Some permMap' \<Longrightarrow> keyed permMap \<Longrightarrow> keyed permMap'"
  by (induction permMap perms rule: add_perms.induct) (simp_all add: keyed_update)

lemma add_perms_keys:
  "add_perms permMap perms = Some permMap' \<Longrightarrow>
   fst ` set permMap' = fst ` set permMap \<union> perm_key ` rules_of perms"
  by (induction permMap perms rule: add_perms.induct) (simp_all add: rules_of_simps dom_update)

lemma add_perms_values:
  "add_perms permMap perms = Some permMap' \<Longrightarrow>
   snd ` set permMap' \<subseteq> snd ` set permMap \<union> rules_of perms"
proof (induction permMap perms rule: add_perms.induct)
  case (3 permMap perm perms)
  then have "snd ` set permMap' \<subseteq>
      snd ` set (AList.update (perm_key perm) perm permMap) \<union> rules_of perms"
    by simp
  with values_update [of "perm_key perm" perm permMap]
  have "snd ` set permMap' \<subseteq> insert perm (snd ` set permMap) \<union> rules_of perms"
    by blast
  then show ?case
    by (simp add: rules_of_simps)
qed (simp_all add: rules_of_simps)

lemma add_role_rows_keyed:
  "add_role_rows permMap rows = Returns permMap' \<Longrightarrow> keyed permMap \<Longrightarrow> keyed permMap'"
  by (induction permMap rows rule: add_role_rows.induct)
     (auto simp: add_perms_keyed split: option.splits)

lemma add_role_rows_keys:
  "add_role_rows permMap rows = Returns permMap' \<Longrightarrow>
   fst ` set permMap' = fst ` set permMap \<union>
     perm_key ` (\<Union>pl\<in>set rows. case pl of Parsed perms \<Rightarrow> rules_of perms | Malformed \<Rightarrow> {})"
proof (induction permMap rows rule: add_role_rows.induct)
  case (3 permMap rolePerms rows)
  then obtain pm where pm: "add_perms permMap rolePerms = Some pm"
    and rest: "add_role_rows pm rows = Returns permMap'"
    by (auto split: option.splits)
  from "3.IH" [OF pm rest] add_perms_keys [OF pm] show ?case
    by (simp add: image_Un Un_assoc)
qed simp_all

lemma add_role_rows_values:
  "add_role_rows permMap rows = Returns permMap' \<Longrightarrow>
   snd ` set permMap' \<subseteq> snd ` set permMap \<union>
     (\<Union>pl\<in>set rows. case pl of Parsed perms \<Rightarrow> rules_of perms | Malformed \<Rightarrow> {})"
proof (induction permMap rows rule: add_role_rows.induct)
  case (3 permMap rolePerms rows)
  then obtain pm where pm: "add_perms permMap rolePerms = Some pm"
    and rest: "add_role_rows pm rows = Returns permMap'"
    by (auto split: option.splits)
  from "3.IH" [OF pm rest] add_perms_values [OF pm] show ?case
    by (simp add: Un_assoc) blast
qed simp_all

text \<open>What the code does guarantee: a successful call returns rules of the
  credential or of its roles, one for every key that occurs among them.\<close>

lemma GetAccessKeyPermissions_effective:
  assumes "GetAccessKeyPermissions (Some d) i = Returns ps"
  shows "distinct (map perm_key ps) \<and>
         set ps \<subseteq> direct_rules d i \<union> role_rules d i \<and>
         perm_key ` set ps = perm_key ` (direct_rules d i \<union> role_rules d i)"
proof -
  from assms obtain keyPerms rest pm pm' where
    row: "map ak_Permissions (filter (\<lambda>r. ak_AccessKey r = i) (access_keys d)) =
            Parsed keyPerms # rest"
    and pm: "add_perms [] keyPerms = Some pm"
    and pm': "add_role_rows pm (role_rows d i) = Returns pm'"
    and ps: "ps = map snd pm'"
    by (auto simp: GetAccessKeyPermissions_def QueryRow_def
          split: option.splits list.splits payload.splits outcome.splits)
  have direct: "direct_rules d i = rules_of keyPerms"
    by (simp add: direct_rules_def row)
  have k0: "keyed []"
    by (simp add: keyed_def)
  have k: "keyed pm'"
    by (rule add_role_rows_keyed [OF pm' add_perms_keyed [OF pm k0]])
  have vals: "snd ` set pm' \<subseteq> direct_rules d i \<union> role_rules d i"
    using add_role_rows_values [OF pm'] add_perms_values [OF pm]
    by (simp add: direct role_rules_def) blast
  have keys: "fst ` set pm' = perm_key ` (direct_rules d i \<union> role_rules d i)"
    using add_role_rows_keys [OF pm'] add_perms_keys [OF pm]
    by (simp add: direct role_rules_def image_Un)
  have fs: "map perm_key (map snd pm') = map fst pm'"
    using k by (auto simp: keyed_def)
  have "distinct (map fst pm')"
    using k by (simp add: keyed_def)
  then have "distinct (map perm_key ps)"
    unfolding ps fs .
  moreover have "set ps \<subseteq> direct_rules d i \<union> role_rules d i"
    using vals by (simp add: ps)
  moreover have "perm_key ` set ps = perm_key ` (direct_rules d i \<union> role_rules d i)"
    using keys fs by (metis ps set_map)
  ultimately show ?thesis by simp
qed

lemma collision_keys:
  "perm_key spaced_rule = ''[a b]-[GET]-allow''" "perm_key split_rule = ''[a b]-[GET]-allow''"
  by (simp_all add: perm_key_def spaced_rule_def split_rule_def Sprintf_v_def)

text \<open>
  C7. A credential with the direct rule on the one resource \<open>a b\<close> and a role with the
  rule on the two resources \<open>a\<close> and \<open>b\<close>: the triples differ, both rules are rendered to
  the same key, and the effective set holds the role's rule only, so that the directly
  granted \<open>GET\<close> on \<open>a b\<close> is lost. A direct rule and an identical role rule do collapse
  to one entry.
\<close>

theorem GetAccessKeyPermissions_key_collision:
  "Resources spaced_rule = [''a b''] \<and> Resources split_rule = [''a'', ''b''] \<and>
   perm_key spaced_rule = perm_key split_rule \<and>
   GetAccessKeyPermissions (Some collision_db) ''14789'' = Returns [split_rule] \<and>
   hasPermission plain_tables [spaced_rule] ''GET'' ''a b'' \<and>
   \<not> hasPermission plain_tables [split_rule] ''GET'' ''a b'' \<and>
   GetAccessKeyPermissions (Some duplicate_db) ''14789'' = Returns [split_rule]"
proof -
  have a: "GetAccessKeyPermissions (Some collision_db) ''14789'' = Returns [split_rule]"
    by (simp add: GetAccessKeyPermissions_def QueryRow_def collision_db_def gate_key_def
          role_rows_def collision_keys)
  have b: "GetAccessKeyPermissions (Some duplicate_db) ''14789'' = Returns [split_rule]"
    by (simp add: GetAccessKeyPermissions_def QueryRow_def duplicate_db_def gate_key_def
          role_rows_def collision_keys)
  have c: "hasPermission plain_tables [spaced_rule] ''GET'' ''a b''"
    by (simp add: hasPermission_def spaced_rule_def ToLower_def ToUpper_def is_ascii_def lower_char_def
          upper_char_def char_of_eq_iff take_bit_eq_mod matchPathPattern_def HasSuffix_def)
  have d: "\<not> hasPermission plain_tables [split_rule] ''GET'' ''a b''"
    by (simp add: hasPermission_def split_rule_def ToLower_def ToUpper_def is_ascii_def lower_char_def
          upper_char_def char_of_eq_iff take_bit_eq_mod matchPathPattern_def HasSuffix_def)
  show ?thesis
    using a b c d by (simp add: collision_keys) (simp add: spaced_rule_def split_rule_def)
qed

end
